theory Spec2Isabelle
  imports Main "HOL-Library.Word" "HOL-Library.Monad_Syntax"
begin

unbundle bit_operations_syntax

section \<open>Go values: bytes, ints, slices, run-time panics\<close>

text \<open>
  The model fixes Go's \<open>int\<close> at 64 bits (amd64, arm64): \<open>+\<close>, \<open>-\<close>, \<open><<\<close> wrap
  around, \<open>>>\<close> on an \<open>int\<close> is the arithmetic shift \<open>signed_drop_bit\<close>, and the
  conversion \<open>byte(x)\<close> keeps the low 8 bits (\<open>ucast\<close>).

  A slice \<open>b\<close> is a window on a backing array. What a function can observe of it is
  the elements \<open>b[0] .. b[len(b)-1]\<close> and, through a reslice \<open>b[:n]\<close> with
  \<open>len(b) < n \<le> cap(b)\<close>, the elements of the backing array between \<open>len(b)\<close> and
  \<open>cap(b)\<close>. The record keeps both parts, so every value of the type is a well-formed
  slice with \<open>len \<le> cap\<close>.

  A run-time panic (index out of range, slice bounds out of range) is the value
  \<open>None\<close>; a function that returns normally yields \<open>Some\<close> of its results. The Go
  \<open>error\<close> result of a function is one component of what it returns.
\<close>

type_synonym byte = "8 word"
type_synonym go_int = "64 word"

record slice =
  elems :: "byte list"
  spare :: "byte list"

definition slice_len :: "slice \<Rightarrow> nat" where
  "slice_len b = length (elems b)"

definition slice_cap :: "slice \<Rightarrow> nat" where
  "slice_cap b = length (elems b) + length (spare b)"

text \<open>\<open>b[i]\<close>: panics unless \<open>i < len(b)\<close>.\<close>

definition slice_index :: "slice \<Rightarrow> nat \<Rightarrow> byte option" where
  "slice_index b i = (if i < slice_len b then Some (elems b ! i) else None)"

text \<open>\<open>b[:n]\<close>: panics unless \<open>n \<le> cap(b)\<close>; the capacity stays.\<close>

definition slice_to :: "slice \<Rightarrow> nat \<Rightarrow> slice option" where
  "slice_to b n =
     (if n \<le> slice_cap b
      then Some \<lparr>elems = take n (elems b @ spare b), spare = drop n (elems b @ spare b)\<rparr>
      else None)"

text \<open>\<open>b[i:]\<close>: panics unless \<open>i \<le> len(b)\<close>.\<close>

definition slice_from :: "slice \<Rightarrow> nat \<Rightarrow> slice option" where
  "slice_from b i =
     (if i \<le> slice_len b then Some \<lparr>elems = drop i (elems b), spare = spare b\<rparr> else None)"

text \<open>\<open>make([]byte, n, n)\<close>: \<open>n\<close> zero bytes, no spare capacity.\<close>

definition make_bytes :: "nat \<Rightarrow> byte list" where
  "make_bytes n = replicate n 0"

datatype error =
  InsufficientLength
  | ControlMessageTooSmall nat

section \<open>Token packets (main.go)\<close>

definition netPacketFlagControl :: byte where
  "netPacketFlagControl = 1"

definition netControlMessageToken :: byte where
  "netControlMessageToken = 5"

definition netTokenRequestDataSize :: nat where
  "netTokenRequestDataSize = 512"

definition netPacketFlagConnectionless :: byte where
  "netPacketFlagConnectionless = 8"

definition netPacketVersion :: byte where
  "netPacketVersion = 1"

definition packControlMessageWithToken :: "go_int \<Rightarrow> go_int \<Rightarrow> slice" where
  "packControlMessageWithToken tokenServer tokenClient =
     (let size = 4 + 3 + netTokenRequestDataSize;
          b = make_bytes size;
          b = b[0 := push_bit 2 netPacketFlagControl AND 0xFC];
          b = b[3 := ucast (signed_drop_bit 24 tokenServer)];
          b = b[4 := ucast (signed_drop_bit 16 tokenServer)];
          b = b[5 := ucast (signed_drop_bit 8 tokenServer)];
          b = b[6 := ucast tokenServer];
          b = b[7 := netControlMessageToken];
          b = b[8 := ucast (signed_drop_bit 24 tokenClient)];
          b = b[9 := ucast (signed_drop_bit 16 tokenClient)];
          b = b[10 := ucast (signed_drop_bit 8 tokenClient)];
          b = b[11 := ucast tokenClient]
      in \<lparr>elems = b, spare = []\<rparr>)"

definition headerConnectionless :: "go_int \<Rightarrow> go_int \<Rightarrow> slice" where
  "headerConnectionless tokenServer tokenClient =
     (let b = make_bytes 9;
          b = b[0 := (push_bit 2 netPacketFlagConnectionless AND 0xFC) OR (netPacketVersion AND 0x03)];
          b = b[1 := ucast (signed_drop_bit 24 tokenServer)];
          b = b[2 := ucast (signed_drop_bit 16 tokenServer)];
          b = b[3 := ucast (signed_drop_bit 8 tokenServer)];
          b = b[4 := ucast tokenServer];
          b = b[5 := ucast (signed_drop_bit 24 tokenClient)];
          b = b[6 := ucast (signed_drop_bit 16 tokenClient)];
          b = b[7 := ucast (signed_drop_bit 8 tokenClient)];
          b = b[8 := ucast tokenClient]
      in \<lparr>elems = b, spare = []\<rparr>)"

text \<open>
  The results are \<open>(tokenServer, tokenClient, err)\<close>; the named results start at
  their zero values, which the early \<open>return\<close> hands back.
\<close>

definition unpackControlMessageWithToken :: "slice \<Rightarrow> (go_int \<times> go_int \<times> error option) option" where
  "unpackControlMessageWithToken message =
     (if slice_len message < 12
      then Some (0, 0, Some (ControlMessageTooSmall (slice_len message)))
      else do {
        m3 \<leftarrow> slice_index message 3;
        m4 \<leftarrow> slice_index message 4;
        m5 \<leftarrow> slice_index message 5;
        m6 \<leftarrow> slice_index message 6;
        let tokenClient = push_bit 24 (ucast m3) + push_bit 16 (ucast m4) + push_bit 8 (ucast m5) + ucast m6;
        m8 \<leftarrow> slice_index message 8;
        m9 \<leftarrow> slice_index message 9;
        m10 \<leftarrow> slice_index message 10;
        m11 \<leftarrow> slice_index message 11;
        let tokenServer = push_bit 24 (ucast m8) + push_bit 16 (ucast m9) + push_bit 8 (ucast m10) + ucast m11;
        Some (tokenServer, tokenClient, None)
      })"

section \<open>Variable-length integers (main.go)\<close>

text \<open>
  The body of the \<open>for\<close> loop of \<open>unpackInt\<close>, started at index \<open>i\<close> with the
  bits gathered so far. It returns the index and the bits at the \<open>break\<close>. Each read
  \<open>list[i]\<close> is a \<open>slice_index\<close>, so a read beyond \<open>len(list)\<close> is a panic. The byte
  read for \<open>result |= ...\<close> is the one tested by the next \<open>if\<close>.
\<close>

function unpackInt_loop :: "slice \<Rightarrow> nat \<Rightarrow> go_int \<Rightarrow> (nat \<times> go_int) option" where
  "unpackInt_loop list i result =
     do {
       x0 \<leftarrow> slice_index list i;
       if x0 AND 0x80 = 0 then Some (i, result)
       else do {
         x1 \<leftarrow> slice_index list (i + 1);
         let result = result OR push_bit 6 (ucast (x1 AND 0x7F));
         if x1 AND 0x80 = 0 then Some (i + 1, result)
         else do {
           x2 \<leftarrow> slice_index list (i + 2);
           let result = result OR push_bit (6 + 7) (ucast (x2 AND 0x7F));
           if x2 AND 0x80 = 0 then Some (i + 2, result)
           else do {
             x3 \<leftarrow> slice_index list (i + 3);
             let result = result OR push_bit (6 + 7 + 7) (ucast (x3 AND 0x7F));
             if x3 AND 0x80 = 0 then Some (i + 3, result)
             else do {
               x4 \<leftarrow> slice_index list (i + 4);
               let result = result OR push_bit (6 + 7 + 7 + 7) (ucast (x4 AND 0x7F));
               unpackInt_loop list (i + 4) result
             }
           }
         }
       }
     }"
  by pat_completeness auto
termination
  by (relation "measure (\<lambda>(list, i, result). slice_len list - i)")
     (auto simp: slice_index_def split: if_splits)

text \<open>
  The results are \<open>(result, rest, err)\<close>. The length check sets \<open>err\<close> and the
  function goes on: there is no \<open>return\<close> in that branch.
\<close>

definition unpackInt :: "slice \<Rightarrow> (go_int \<times> slice \<times> error option) option" where
  "unpackInt b =
     do {
       let err = (if slice_len b < 4 then Some InsufficientLength else None);
       list \<leftarrow> slice_to b 4;
       let i = 0;
       x \<leftarrow> slice_index list i;
       let sign = (ucast (drop_bit 6 x AND 1) :: go_int);
       let result = (ucast (x AND 0x3F) :: go_int);
       (i, result) \<leftarrow> unpackInt_loop list i result;
       let i = i + 1;
       let result = result XOR (- sign);
       rest \<leftarrow> slice_from b i;
       Some (result, rest, err)
     }"

section \<open>Reading the specification\<close>

text \<open>
  A byte sequence read as a big-endian unsigned number: the first byte is the most
  significant one.
\<close>

definition be_nat :: "byte list \<Rightarrow> nat" where
  "be_nat bs = foldl (\<lambda>acc b. acc * 256 + unat b) 0 bs"

section \<open>Token packets: proofs\<close>

lemma sdb: "k + 8 \<le> 64 \<Longrightarrow> (ucast (signed_drop_bit k (x::64 word)) :: 8 word) = ucast (drop_bit k x)"
  by (rule bit_word_eqI) (auto simp: bit_simps)

lemma byte_of_shift: "k + 8 \<le> 64 \<Longrightarrow> unat (ucast (signed_drop_bit k (x::64 word)) :: 8 word) = unat x div 2^k mod 256"
proof -
  assume k: "k + 8 \<le> 64"
  have "unat (ucast (drop_bit k x) :: 8 word) = unat (drop_bit k x) mod 256"
    by (simp add: unsigned_ucast_eq take_bit_eq_mod)
  also have "unat (drop_bit k x) = unat x div 2 ^ k"
    by (simp only: unat_drop_bit_eq) (simp only: drop_bit_eq_div)
  finally show ?thesis by (simp only: sdb [OF k])
qed

lemma be_arith: "((n::nat) div 16777216 mod 256) * 16777216 + (n div 65536 mod 256) * 65536 + (n div 256 mod 256) * 256 + n mod 256 = n mod 4294967296"
proof -
  have 1: "n mod (256 * 16777216) = 256 * (n div 256 mod 16777216) + n mod 256"
    by (rule mod_mult2_eq)
  have 2: "(n div 256) mod (256 * 65536) = 256 * (n div 256 div 256 mod 65536) + n div 256 mod 256"
    by (rule mod_mult2_eq)
  have 3: "(n div 256 div 256) mod (256 * 256) = 256 * (n div 256 div 256 div 256 mod 256) + n div 256 div 256 mod 256"
    by (rule mod_mult2_eq)
  have 4: "n div 256 div 256 = n div 65536" "n div 65536 div 256 = n div 16777216"
    by (simp_all add: div_mult2_eq [symmetric])
  show ?thesis using 1 2 3 by (simp add: 4)
qed


lemma byte_of_low: "unat (ucast (x::64 word) :: 8 word) = unat x mod 256"
  by (simp add: unsigned_ucast_eq take_bit_eq_mod)

lemma be_nat4: "be_nat [a, b, c, d] = unat a * 16777216 + unat b * 65536 + unat c * 256 + unat d"
  by (simp add: be_nat_def)

lemma be_nat_token:
  "be_nat [ucast (signed_drop_bit 24 t), ucast (signed_drop_bit 16 t), ucast (signed_drop_bit 8 t), ucast (t::64 word)]
     = unat t mod 2 ^ 32"
proof -
  have b24: "unat (signed_drop_bit 24 t) mod 256 = unat t div 16777216 mod 256"
    using byte_of_shift [of 24 t] by (simp add: byte_of_low)
  have b16: "unat (signed_drop_bit 16 t) mod 256 = unat t div 65536 mod 256"
    using byte_of_shift [of 16 t] by (simp add: byte_of_low)
  have b8: "unat (signed_drop_bit 8 t) mod 256 = unat t div 256 mod 256"
    using byte_of_shift [of 8 t] by (simp add: byte_of_low)
  have "be_nat [ucast (signed_drop_bit 24 t), ucast (signed_drop_bit 16 t), ucast (signed_drop_bit 8 t), ucast t]
      = unat t mod 4294967296"
    by (simp only: be_nat4 b24 b16 b8 byte_of_low be_arith)
  then show ?thesis by simp
qed


lemma unat_byte_lt: "unat (b::byte) < 256"
  using unsigned_less [of b] by simp

lemma be_word:
  "unat (push_bit 24 (ucast (a::byte)) + push_bit 16 (ucast (b::byte)) + push_bit 8 (ucast (c::byte)) + ucast (d::byte) :: 64 word)
     = be_nat [a, b, c, d]"
proof -
  have a: "unat a < 256" and b: "unat b < 256" and c: "unat c < 256" and d: "unat d < 256"
    by (rule unat_byte_lt)+
  have "unat (push_bit 24 (ucast a) + push_bit 16 (ucast b) + push_bit 8 (ucast c) + ucast d :: 64 word)
      = (unat a * 16777216 + unat b * 65536 + unat c * 256 + unat d) mod 2 ^ 64"
    by (simp add: unat_word_ariths push_bit_eq_mult unsigned_ucast_eq take_bit_eq_mod mod_simps)
  also have "\<dots> = unat a * 16777216 + unat b * 65536 + unat c * 256 + unat d"
    using a b c d by simp
  finally show ?thesis by (simp add: be_nat4)
qed

lemma zeros12: "replicate 519 (0::byte) = [0,0,0,0,0,0,0,0,0,0,0,0] @ replicate 507 0"
proof -
  have "[0,0,0,0,0,0,0,0,0,0,0,0] = replicate 12 (0::byte)"
    by (simp add: numeral_eq_Suc)
  then show ?thesis by (simp add: replicate_add [symmetric])
qed

lemma elems_packControlMessageWithToken:
  "elems (packControlMessageWithToken ts tc) =
     [4, 0, 0,
      ucast (signed_drop_bit 24 ts), ucast (signed_drop_bit 16 ts), ucast (signed_drop_bit 8 ts), ucast ts,
      5,
      ucast (signed_drop_bit 24 tc), ucast (signed_drop_bit 16 tc), ucast (signed_drop_bit 8 tc), ucast tc]
     @ replicate 507 0"
  by (simp add: packControlMessageWithToken_def make_bytes_def netTokenRequestDataSize_def
      netPacketFlagControl_def netControlMessageToken_def zeros12 list_update_append eval_nat_numeral)

lemma elems_headerConnectionless:
  "elems (headerConnectionless ts tc) =
     [33,
      ucast (signed_drop_bit 24 ts), ucast (signed_drop_bit 16 ts), ucast (signed_drop_bit 8 ts), ucast ts,
      ucast (signed_drop_bit 24 tc), ucast (signed_drop_bit 16 tc), ucast (signed_drop_bit 8 tc), ucast tc]"
  by (simp add: headerConnectionless_def make_bytes_def netPacketFlagConnectionless_def
      netPacketVersion_def eval_nat_numeral)


text \<open>
  C8: for every pair of tokens, \<open>headerConnectionless\<close> returns exactly 9 bytes:
  byte 0 is \<open>((flag << 2) & 0xFC) | (version & 0x03)\<close> for the connectionless flag
  and the protocol version, bytes 1 to 4 are the server token and bytes 5 to 8 the
  client token, both big-endian. A token is an \<open>int\<close>; the four bytes hold its low
  32 bits.
\<close>

theorem headerConnectionless_layout:
  "slice_len (headerConnectionless tokenServer tokenClient) = 9 \<and>
   elems (headerConnectionless tokenServer tokenClient) ! 0 =
     (push_bit 2 netPacketFlagConnectionless AND 0xFC) OR (netPacketVersion AND 0x03) \<and>
   be_nat (take 4 (drop 1 (elems (headerConnectionless tokenServer tokenClient)))) = unat tokenServer mod 2 ^ 32 \<and>
   be_nat (take 4 (drop 5 (elems (headerConnectionless tokenServer tokenClient)))) = unat tokenClient mod 2 ^ 32"
  by (simp add: slice_len_def elems_headerConnectionless be_nat_token
      netPacketFlagConnectionless_def netPacketVersion_def)

text \<open>
  C7: for every pair of tokens, \<open>packControlMessageWithToken\<close> returns exactly
  4 + 3 + 512 = 519 bytes: byte 0 is the control flag byte, bytes 3 to 6 the server
  token big-endian, byte 7 the control message subtype, bytes 8 to 11 the client token
  big-endian, and every other byte is zero.
\<close>

theorem packControlMessageWithToken_layout:
  "slice_len (packControlMessageWithToken tokenServer tokenClient) = 4 + 3 + 512 \<and>
   elems (packControlMessageWithToken tokenServer tokenClient) ! 0 = push_bit 2 netPacketFlagControl AND 0xFC \<and>
   be_nat (take 4 (drop 3 (elems (packControlMessageWithToken tokenServer tokenClient)))) = unat tokenServer mod 2 ^ 32 \<and>
   elems (packControlMessageWithToken tokenServer tokenClient) ! 7 = netControlMessageToken \<and>
   be_nat (take 4 (drop 8 (elems (packControlMessageWithToken tokenServer tokenClient)))) = unat tokenClient mod 2 ^ 32 \<and>
   (\<forall>i < 519. i \<notin> {0, 3, 4, 5, 6, 7, 8, 9, 10, 11} \<longrightarrow>
      elems (packControlMessageWithToken tokenServer tokenClient) ! i = 0)"
proof -
  let ?e = "elems (packControlMessageWithToken tokenServer tokenClient)"
  have len: "slice_len (packControlMessageWithToken tokenServer tokenClient) = 4 + 3 + 512"
    by (simp add: slice_len_def elems_packControlMessageWithToken)
  have b0: "?e ! 0 = push_bit 2 netPacketFlagControl AND 0xFC"
    by (simp add: elems_packControlMessageWithToken netPacketFlagControl_def)
  have srv: "be_nat (take 4 (drop 3 ?e)) = unat tokenServer mod 2 ^ 32"
    by (simp add: elems_packControlMessageWithToken be_nat_token)
  have b7: "?e ! 7 = netControlMessageToken"
    by (simp add: elems_packControlMessageWithToken netControlMessageToken_def)
  have cli: "be_nat (take 4 (drop 8 ?e)) = unat tokenClient mod 2 ^ 32"
    by (simp add: elems_packControlMessageWithToken be_nat_token)
  have pad: "?e ! i = 0" if "i < 519" "i \<notin> {0, 3, 4, 5, 6, 7, 8, 9, 10, 11}" for i
  proof (cases "i < 12")
    case True
    with that have "i = 1 \<or> i = 2" by simp arith
    then show ?thesis by (auto simp: elems_packControlMessageWithToken)
  next
    case False
    with that show ?thesis by (simp add: elems_packControlMessageWithToken nth_append)
  qed
  from len b0 srv b7 cli pad show ?thesis by blast
qed


lemma take4_drop:
  assumes "k + 4 \<le> length xs"
  shows "take 4 (drop k xs) = [xs ! k, xs ! (k + 1), xs ! (k + 2), xs ! (k + 3)]"
proof (rule nth_equalityI)
  show "length (take 4 (drop k xs)) = length [xs ! k, xs ! (k + 1), xs ! (k + 2), xs ! (k + 3)]"
    using assms by simp
next
  fix i
  assume "i < length (take 4 (drop k xs))"
  then have "i = 0 \<or> i = 1 \<or> i = 2 \<or> i = 3" by auto
  then show "take 4 (drop k xs) ! i = [xs ! k, xs ! (k + 1), xs ! (k + 2), xs ! (k + 3)] ! i"
    using assms by (elim disjE) (simp_all add: add.commute)
qed

lemma unpackControlMessageWithToken_long:
  assumes "12 \<le> slice_len m"
  shows "unpackControlMessageWithToken m =
     Some (push_bit 24 (ucast (elems m ! 8)) + push_bit 16 (ucast (elems m ! 9)) + push_bit 8 (ucast (elems m ! 10)) + ucast (elems m ! 11),
           push_bit 24 (ucast (elems m ! 3)) + push_bit 16 (ucast (elems m ! 4)) + push_bit 8 (ucast (elems m ! 5)) + ucast (elems m ! 6),
           None)"
  using assms by (simp add: unpackControlMessageWithToken_def slice_index_def)

text \<open>
  C6: \<open>unpackControlMessageWithToken\<close> returns an error exactly when the message
  has fewer than 12 bytes; on 12 bytes or more it returns without error the client
  token read big-endian from bytes 3 to 6 and the server token read big-endian from
  bytes 8 to 11.
\<close>

theorem unpackControlMessageWithToken_length:
  "((\<exists>tokenServer tokenClient e.
        unpackControlMessageWithToken message = Some (tokenServer, tokenClient, Some e))
      \<longleftrightarrow> slice_len message < 12) \<and>
   (12 \<le> slice_len message \<longrightarrow>
      (\<exists>tokenServer tokenClient.
         unpackControlMessageWithToken message = Some (tokenServer, tokenClient, None) \<and>
         unat tokenClient = be_nat (take 4 (drop 3 (elems message))) \<and>
         unat tokenServer = be_nat (take 4 (drop 8 (elems message)))))"
proof (cases "slice_len message < 12")
  case True
  then show ?thesis by (simp add: unpackControlMessageWithToken_def)
next
  case False
  then have len: "12 \<le> slice_len message" by simp
  then have l: "3 + 4 \<le> length (elems message)" "8 + 4 \<le> length (elems message)"
    by (simp_all add: slice_len_def)
  show ?thesis
    using len take4_drop [OF l(1)] take4_drop [OF l(2)]
    by (simp add: unpackControlMessageWithToken_long be_word)
qed

lemma token_in_range:
  assumes "0 \<le> sint (t :: go_int)" "sint t < 2 ^ 32"
  shows "unat t mod 2 ^ 32 = unat t"
proof -
  have "sint t < 2 ^ 64"
    using assms(2) by (rule less_trans) simp
  with assms(1) have "take_bit 64 (sint t) = sint t"
    by (rule take_bit_int_eq_self)
  moreover have "uint t = take_bit 64 (sint t)"
    using uint_sint [of t] by simp
  ultimately have "uint t < 4294967296"
    using assms(2) by simp
  then have "nat (uint t) < 4294967296"
    by linarith
  then have "unat t < 2 ^ 32"
    by (simp only: unat_eq_nat_uint) simp
  then show ?thesis by simp
qed

text \<open>
  C10: for tokens \<open>s\<close> and \<open>c\<close> between 0 and \<open>2^32 - 1\<close>, parsing the packet
  built from \<open>(s, c)\<close> succeeds with \<open>tokenServer = c\<close> and \<open>tokenClient = s\<close>:
  the two roles are swapped.
\<close>

theorem token_roundtrip_swaps:
  assumes "0 \<le> sint s" "sint s < 2 ^ 32" "0 \<le> sint c" "sint c < 2 ^ 32"
  shows "unpackControlMessageWithToken (packControlMessageWithToken s c) = Some (c, s, None)"
proof -
  let ?m = "packControlMessageWithToken s c"
  have len: "12 \<le> slice_len ?m"
    by (simp add: slice_len_def elems_packControlMessageWithToken)
  have "unat (push_bit 24 (ucast (elems ?m ! 3)) + push_bit 16 (ucast (elems ?m ! 4))
          + push_bit 8 (ucast (elems ?m ! 5)) + ucast (elems ?m ! 6) :: go_int) = unat s"
    unfolding be_word
    using be_nat_token [of s] token_in_range [OF assms(1,2)]
    by (simp add: elems_packControlMessageWithToken)
  then have cl: "push_bit 24 (ucast (elems ?m ! 3)) + push_bit 16 (ucast (elems ?m ! 4))
          + push_bit 8 (ucast (elems ?m ! 5)) + ucast (elems ?m ! 6) = s"
    by (simp only: word_unat_eq_iff)
  have "unat (push_bit 24 (ucast (elems ?m ! 8)) + push_bit 16 (ucast (elems ?m ! 9))
          + push_bit 8 (ucast (elems ?m ! 10)) + ucast (elems ?m ! 11) :: go_int) = unat c"
    unfolding be_word
    using be_nat_token [of c] token_in_range [OF assms(3,4)]
    by (simp add: elems_packControlMessageWithToken)
  then have sv: "push_bit 24 (ucast (elems ?m ! 8)) + push_bit 16 (ucast (elems ?m ! 9))
          + push_bit 8 (ucast (elems ?m ! 10)) + ucast (elems ?m ! 11) = c"
    by (simp only: word_unat_eq_iff)
  show ?thesis
    unfolding unpackControlMessageWithToken_long [OF len] cl sv ..
qed


theorem unpackControlMessageWithToken_length_witness:
  "12 \<le> slice_len \<lparr>elems = [4, 0, 0, 1, 2, 3, 4, 5, 5, 6, 7, 8], spare = []\<rparr> \<and>
   (\<exists>tokenServer tokenClient.
      unpackControlMessageWithToken \<lparr>elems = [4, 0, 0, 1, 2, 3, 4, 5, 5, 6, 7, 8], spare = []\<rparr>
        = Some (tokenServer, tokenClient, None) \<and>
      unat tokenClient = 16909060 \<and> unat tokenServer = 84281096)"
  using unpackControlMessageWithToken_length [of "\<lparr>elems = [4, 0, 0, 1, 2, 3, 4, 5, 5, 6, 7, 8], spare = []\<rparr>"]
  by (simp add: slice_len_def be_nat_def)

theorem packControlMessageWithToken_layout_witness:
  "(12::nat) < 519 \<and> (12::nat) \<notin> {0, 3, 4, 5, 6, 7, 8, 9, 10, 11} \<and>
   elems (packControlMessageWithToken 1 2) ! 12 = 0 \<and>
   slice_len (packControlMessageWithToken 1 2) = 519"
  using packControlMessageWithToken_layout [of 1 2]
  by simp

theorem token_roundtrip_swaps_witness:
  "0 \<le> sint (7 :: go_int) \<and> sint (7 :: go_int) < 2 ^ 32 \<and>
   0 \<le> sint (9 :: go_int) \<and> sint (9 :: go_int) < 2 ^ 32 \<and>
   unpackControlMessageWithToken (packControlMessageWithToken 7 9) = Some (9, 7, None)"
  using token_roundtrip_swaps [of 7 9]
  by simp


end
